theory Spec2Isabelle
  imports Complex_Main "HOL-Library.Word" "HOL-Library.Multiset"
begin

section \<open>The detection and automation engine of the pip reroller\<close>

text \<open>
  A shallow embedding of the parts of \<^verbatim>\<open>app/app.py\<close> (class \<^verbatim>\<open>PipRerollerApp\<close>) that the
  specification makes claims about: the colour mask of a rank, the distance between two
  rectangles, the greedy rectangle merger, the classifier's final ordering, the settings
  updaters, the start of a run, the publication of rank counts and the end of the reroll loop.
\<close>

subsection \<open>Frames and colour masks\<close>

text \<open>
  A captured frame is a two-dimensional array of BGR samples of type \<^verbatim>\<open>uint8\<close>: a list of
  rows of pixels, each pixel a triple of 8-bit words. A reference colour is the triple of
  Python integers that \<^verbatim>\<open>np.array(bgr)\<close> holds.
\<close>

type_synonym pixel = "8 word \<times> 8 word \<times> 8 word"
type_synonym frame = "pixel list list"
type_synonym bgr = "int \<times> int \<times> int"

text \<open>\<^verbatim>\<open>frame.astype(np.int16)\<close>: an unsigned 8-bit sample widened to 16 bits.\<close>

definition astype_int16 :: "8 word \<Rightarrow> 16 word" where
  "astype_int16 v = ucast v"

text \<open>
  \<^verbatim>\<open>np.abs(frame.astype(np.int16) - color_bgr)\<close> on one channel. The colour array has the
  platform integer type, so the difference is taken in that wider type, where it cannot wrap
  for a 16-bit sample and a colour component: it is the integer difference.
\<close>

definition abs_diff :: "8 word \<Rightarrow> int \<Rightarrow> int" where
  "abs_diff v c = \<bar>sint (astype_int16 v) - c\<bar>"

text \<open>\<^verbatim>\<open>np.all(diff <= tolerance, axis=2)\<close> at one pixel.\<close>

definition all_within :: "pixel \<Rightarrow> bgr \<Rightarrow> int \<Rightarrow> bool" where
  "all_within p color_bgr tolerance =
     (case p of (b, g, r) \<Rightarrow> case color_bgr of (cb, cg, cr) \<Rightarrow>
        abs_diff b cb \<le> tolerance \<and> abs_diff g cg \<le> tolerance \<and> abs_diff r cr \<le> tolerance)"

text \<open>\<^verbatim>\<open>rank_mask\<close>: the boolean array cast to \<^verbatim>\<open>uint8\<close> (0 or 1) and multiplied by 255.\<close>

definition rank_mask :: "frame \<Rightarrow> bgr \<Rightarrow> int \<Rightarrow> 8 word list list" where
  "rank_mask frame color_bgr tolerance =
     map (map (\<lambda>p. (if all_within p color_bgr tolerance then 1 else 0) * 255)) frame"

text \<open>The number of pixels a mask marks (value 255).\<close>

definition marked_pixels :: "8 word list list \<Rightarrow> nat" where
  "marked_pixels msk = sum_list (map (\<lambda>row. length (filter (\<lambda>v. v = 255) row)) msk)"

definition example_frame :: frame where
  "example_frame = [[(10, 20, 30), (15, 25, 36)], [(0, 0, 0), (5, 25, 35)]]"

subsection \<open>Rectangles: distance and greedy merging\<close>

text \<open>A rectangle is the tuple \<^verbatim>\<open>(x, y, w, h)\<close> of integers that \<^verbatim>\<open>cv2.boundingRect\<close> returns.\<close>

type_synonym rect = "int \<times> int \<times> int \<times> int"

text \<open>
  \<^verbatim>\<open>np.hypot(dx, dy)\<close>, documented as \<^verbatim>\<open>sqrt(dx**2 + dy**2)\<close>, over the reals: the rounding
  of the 64-bit float result is not modelled.
\<close>

definition np_hypot :: "int \<Rightarrow> int \<Rightarrow> real" where
  "np_hypot dx dy = sqrt ((real_of_int dx)\<^sup>2 + (real_of_int dy)\<^sup>2)"

definition rect_distance :: "rect \<Rightarrow> rect \<Rightarrow> real" where
  "rect_distance r1 r2 =
     (case r1 of (x1, y1, w1, h1) \<Rightarrow> case r2 of (x2, y2, w2, h2) \<Rightarrow>
        let left = x2 + w2 < x1;
            right = x1 + w1 < x2;
            dx = (if right then x2 - (x1 + w1) else if left then x1 - (x2 + w2) else 0);
            above = y2 + h2 < y1;
            below = y1 + h1 < y2;
            dy = (if below then y2 - (y1 + h1) else if above then y1 - (y2 + h2) else 0)
        in np_hypot dx dy)"

text \<open>
  One step of the inner loop's update of \<^verbatim>\<open>merged_rect = [min_x, min_y, max_x, max_y]\<close> with
  a rectangle \<^verbatim>\<open>rects[j] = (rx, ry, rw, rh)\<close>.
\<close>

definition expand :: "rect \<Rightarrow> rect \<Rightarrow> rect" where
  "expand merged_rect q =
     (case merged_rect of (m0, m1, m2, m3) \<Rightarrow> case q of (rx, ry, rw, rh) \<Rightarrow>
        (min m0 rx, min m1 ry, max m2 (rx + rw), max m3 (ry + rh)))"

text \<open>
  The inner loop \<^verbatim>\<open>for j in range(i + 1, len(rects))\<close>. The rectangles after position \<^verbatim>\<open>i\<close>
  travel with their \<^verbatim>\<open>used\<close> flags; the loop returns the envelope and the updated flags.
  Every candidate is compared with the rectangle \<^verbatim>\<open>r\<close> that opened the group, never with the
  envelope.
\<close>

fun scan_later :: "rect \<Rightarrow> real \<Rightarrow> (rect \<times> bool) list \<Rightarrow> rect \<Rightarrow> rect \<times> (rect \<times> bool) list" where
  "scan_later r max_distance [] merged_rect = (merged_rect, [])"
| "scan_later r max_distance ((q, used) # rest) merged_rect =
     (if used then
        (case scan_later r max_distance rest merged_rect of
           (m, rest') \<Rightarrow> (m, (q, used) # rest'))
      else if rect_distance r q \<le> max_distance then
        (case scan_later r max_distance rest (expand merged_rect q) of
           (m, rest') \<Rightarrow> (m, (q, True) # rest'))
      else
        (case scan_later r max_distance rest merged_rect of
           (m, rest') \<Rightarrow> (m, (q, used) # rest')))"

lemma length_scan_later [simp]:
  "length (snd (scan_later r d qs m)) = length qs"
  by (induction r d qs m rule: scan_later.induct) (simp_all add: case_prod_beta)

lemma length_scan_later_eq:
  "(m', rest') = scan_later r d qs m \<Longrightarrow> length rest' = length qs"
  using length_scan_later [of r d qs m] by (cases "scan_later r d qs m") simp

text \<open>The outer loop \<^verbatim>\<open>for i, r in enumerate(rects)\<close>, which skips used rectangles.\<close>

function merge_loop :: "real \<Rightarrow> (rect \<times> bool) list \<Rightarrow> rect list" where
  "merge_loop max_distance [] = []"
| "merge_loop max_distance ((r, used) # rest) =
     (if used then merge_loop max_distance rest
      else (case r of (x, y, w, h) \<Rightarrow>
        (case scan_later r max_distance rest (x, y, x + w, y + h) of
           ((m0, m1, m2, m3), rest') \<Rightarrow>
             (m0, m1, m2 - m0, m3 - m1) # merge_loop max_distance rest')))"
  by pat_completeness auto
termination
  by (relation "measure (\<lambda>(d, ps). length ps)") (auto dest: length_scan_later_eq)

text \<open>\<^verbatim>\<open>merge_rectangles\<close>, with \<^verbatim>\<open>used = [False] * len(rects)\<close>.\<close>

definition merge_rectangles :: "rect list \<Rightarrow> real \<Rightarrow> rect list" where
  "merge_rectangles rects max_distance =
     merge_loop max_distance (zip rects (replicate (length rects) False))"

text \<open>
  The specification's reading of the metric, for comparison with \<open>rect_distance\<close>: the
  projection of a rectangle onto an axis is the closed interval between its two edges, two
  projections overlap or touch when they share a point, and the gap on an axis is 0 in that
  case and the distance between the two nearest edges otherwise.
\<close>

definition x_projection :: "rect \<Rightarrow> int set" where
  "x_projection r = (case r of (x, y, w, h) \<Rightarrow> {x .. x + w})"

definition y_projection :: "rect \<Rightarrow> int set" where
  "y_projection r = (case r of (x, y, w, h) \<Rightarrow> {y .. y + h})"

definition overlap_or_touch :: "int set \<Rightarrow> int set \<Rightarrow> bool" where
  "overlap_or_touch A B \<longleftrightarrow> A \<inter> B \<noteq> {}"

definition nearest_edges :: "int \<Rightarrow> int \<Rightarrow> int \<Rightarrow> int \<Rightarrow> int" where
  "nearest_edges a1 b1 a2 b2 = min (min \<bar>a1 - a2\<bar> \<bar>a1 - b2\<bar>) (min \<bar>b1 - a2\<bar> \<bar>b1 - b2\<bar>)"

definition horizontal_gap :: "rect \<Rightarrow> rect \<Rightarrow> int" where
  "horizontal_gap r1 r2 =
     (case r1 of (x1, y1, w1, h1) \<Rightarrow> case r2 of (x2, y2, w2, h2) \<Rightarrow>
        if overlap_or_touch (x_projection r1) (x_projection r2) then 0
        else nearest_edges x1 (x1 + w1) x2 (x2 + w2))"

definition vertical_gap :: "rect \<Rightarrow> rect \<Rightarrow> int" where
  "vertical_gap r1 r2 =
     (case r1 of (x1, y1, w1, h1) \<Rightarrow> case r2 of (x2, y2, w2, h2) \<Rightarrow>
        if overlap_or_touch (y_projection r1) (y_projection r2) then 0
        else nearest_edges y1 (y1 + h1) y2 (y2 + h2))"

text \<open>
  Every rectangle of the list is more than \<open>d\<close> away from every later one, measured as the
  merger measures it (from the earlier rectangle to the later one).
\<close>

fun pairwise_apart :: "real \<Rightarrow> rect list \<Rightarrow> bool" where
  "pairwise_apart d [] = True"
| "pairwise_apart d (r # rs) = ((\<forall>q \<in> set rs. d < rect_distance r q) \<and> pairwise_apart d rs)"

text \<open>The number of rectangles whose \<^verbatim>\<open>used\<close> flag is still clear.\<close>

definition unused :: "(rect \<times> bool) list \<Rightarrow> nat" where
  "unused ps = length (filter (\<lambda>p. \<not> snd p) ps)"










subsection \<open>The classifier\<close>

text \<open>The exceptions of Python that the modelled code can raise.\<close>

datatype py_error = ValueError | KeyError | TypeError

text \<open>A detected object is the dict with the keys \<^verbatim>\<open>'rank'\<close>, \<^verbatim>\<open>'rect'\<close> and \<^verbatim>\<open>'cv2color'\<close>.\<close>

record detected_obj =
  obj_rank :: string
  obj_rect :: rect
  obj_cv2color :: bgr

text \<open>
  The module \<^verbatim>\<open>app.constants\<close> lies outside the modelled file, so the rank table
  \<^verbatim>\<open>RANKS\<close> (a list of triples whose first two components are the rank name and its BGR
  colour) and the dict \<^verbatim>\<open>RANK_ORDER\<close> are parameters. The calls into OpenCV between the mask
  and the rectangles (\<^verbatim>\<open>morphologyEx\<close>, \<^verbatim>\<open>findContours\<close>, \<^verbatim>\<open>contourArea\<close>,
  \<^verbatim>\<open>boundingRect\<close>) are one parameter \<open>contour_rects\<close>, from a mask to the list \<^verbatim>\<open>rects\<close>.
  The settings \<^verbatim>\<open>self.tolerance\<close> and \<^verbatim>\<open>self.object_tolerance\<close> are passed as arguments.

  The body of the loop \<^verbatim>\<open>for rank, bgr, _ in RANKS\<close>: the objects appended for one rank.
\<close>

definition rank_detections ::
  "(8 word list list \<Rightarrow> rect list) \<Rightarrow> int \<Rightarrow> int \<Rightarrow> frame \<Rightarrow> string \<times> bgr \<times> 'a \<Rightarrow> detected_obj list" where
  "rank_detections contour_rects tol obj_tol frame entry =
     (case entry of (rank, bgr, _) \<Rightarrow>
        map (\<lambda>rect. \<lparr>obj_rank = rank, obj_rect = rect, obj_cv2color = bgr\<rparr>)
          (merge_rectangles (contour_rects (rank_mask frame bgr tol)) (real_of_int obj_tol)))"

definition all_detections ::
  "(string \<times> bgr \<times> 'a) list \<Rightarrow> (8 word list list \<Rightarrow> rect list) \<Rightarrow> int \<Rightarrow> int \<Rightarrow> frame \<Rightarrow> detected_obj list" where
  "all_detections RANKS contour_rects tol obj_tol frame =
     concat (map (rank_detections contour_rects tol obj_tol frame) RANKS)"

text \<open>
  \<^verbatim>\<open>detected.sort(key=lambda o: -RANK_ORDER[o['rank']])\<close>. The key is computed for every
  element, so a rank missing from \<^verbatim>\<open>RANK_ORDER\<close> raises \<^verbatim>\<open>KeyError\<close>. Python's sort is
  stable; \<open>sort_key\<close> is the stable insertion sort, and the stable sort of a list by a key
  is unique.
\<close>

definition detect_and_classify ::
  "(string \<times> bgr \<times> 'a) list \<Rightarrow> (string \<rightharpoonup> int) \<Rightarrow> (8 word list list \<Rightarrow> rect list) \<Rightarrow> int \<Rightarrow> int \<Rightarrow> frame
     \<Rightarrow> py_error + detected_obj list" where
  "detect_and_classify RANKS RANK_ORDER contour_rects tol obj_tol frame =
     (let detected = all_detections RANKS contour_rects tol obj_tol frame
      in if list_all (\<lambda>ob. RANK_ORDER (obj_rank ob) \<noteq> None) detected
         then Inr (sort_key (\<lambda>ob. - the (RANK_ORDER (obj_rank ob))) detected)
         else Inl KeyError)"

text \<open>The ordinal of an object's rank.\<close>

definition ordinal :: "(string \<rightharpoonup> int) \<Rightarrow> detected_obj \<Rightarrow> int" where
  "ordinal RANK_ORDER ob = the (RANK_ORDER (obj_rank ob))"

text \<open>
  A table with the two ranks that the source names, and a stand-in for the contour search
  that reports one rectangle when the mask marks a pixel.
\<close>

definition example_RANKS :: "(string \<times> bgr \<times> unit) list" where
  "example_RANKS = [(''F'', (10, 20, 30), ()), (''SS'', (0, 0, 0), ())]"

definition example_RANK_ORDER :: "string \<rightharpoonup> int" where
  "example_RANK_ORDER = [''F'' \<mapsto> 0, ''SS'' \<mapsto> 6]"

definition example_contours :: "8 word list list \<Rightarrow> rect list" where
  "example_contours msk = (if marked_pixels msk = 0 then [] else [(0, 0, 2, 2)])"

subsection \<open>The application state\<close>

text \<open>
  The handle of the image-processor thread (\<^verbatim>\<open>is_alive()\<close> and its \<^verbatim>\<open>stop_event\<close>), and the
  calls made to the collaborators: AutoHotkey and the two worker threads.
\<close>

record image_processor =
  ip_alive :: bool
  ip_stop_event :: bool

datatype action =
    WinActivate string
  | StartImageProcessor
  | StartRerollLoop
  | MouseMove int int
  | MouseMoveRelative int int
  | Click

text \<open>
  The attributes of \<^verbatim>\<open>PipRerollerApp\<close> that the modelled methods read or write. An entry
  widget is the text it holds, a \<^verbatim>\<open>StringVar\<close> is its value, \<^verbatim>\<open>rank_count_vars\<close> is the dict
  from rank to the displayed text in insertion order, a thread attribute is \<open>None\<close> or its
  liveness, \<^verbatim>\<open>stop_reroll_event\<close> is whether the event is set, and \<open>performed\<close> lists the
  calls made to the collaborators, oldest first.
\<close>

record app =
  game_area :: "rect option"
  chisel_button_pos :: "(int \<times> int) option"
  buy_button_pos :: "(int \<times> int) option"
  running :: bool
  tolerance :: int
  stop_at_ss :: int
  click_delay_ms :: int
  post_reroll_delay_ms :: int
  object_tolerance :: int
  image_poll_delay_ms :: int
  min_quality :: string
  min_objects :: int
  game_window_title :: string
  rank_counts :: "string \<rightharpoonup> int"
  rank_count_vars :: "(string \<times> string) list"
  status_var :: string
  status_label_fg :: string
  message_var :: string
  last_detected_objs :: "detected_obj list"
  image_processor_thread :: "image_processor option"
  reroll_loop_thread :: "bool option"
  stop_reroll_event :: bool
  click_delay_entry :: string
  post_reroll_delay_entry :: string
  image_poll_delay_entry :: string
  tolerance_entry :: string
  object_tolerance_entry :: string
  stop_at_entry :: string
  min_objects_entry :: string
  performed :: "action list"

text \<open>
  The state that \<^verbatim>\<open>__init__\<close> builds, given the rank names of \<^verbatim>\<open>RANKS\<close> and the keys of
  \<^verbatim>\<open>RANK_TK_HEX\<close>.
\<close>

definition init_app :: "string list \<Rightarrow> string list \<Rightarrow> app" where
  "init_app ranks hex_keys =
     \<lparr>game_area = None, chisel_button_pos = None, buy_button_pos = None, running = False,
      tolerance = 10, stop_at_ss = 0, click_delay_ms = 50, post_reroll_delay_ms = 500,
      object_tolerance = 10, image_poll_delay_ms = 10, min_quality = ''F'', min_objects = 1,
      game_window_title = ''Roblox'',
      rank_counts = map_of (map (\<lambda>rank. (rank, 0)) ranks),
      rank_count_vars = map (\<lambda>rank. (rank, ''0'')) hex_keys,
      status_var = ''Status: Suspended'', status_label_fg = ''#ff5555'', message_var = '''',
      last_detected_objs = [], image_processor_thread = None, reroll_loop_thread = None,
      stop_reroll_event = False,
      click_delay_entry = ''50'', post_reroll_delay_entry = ''500'',
      image_poll_delay_entry = ''10'', tolerance_entry = ''10'', object_tolerance_entry = ''10'',
      stop_at_entry = ''0'', min_objects_entry = ''1'',
      performed = []\<rparr>"

definition example_app :: app where
  "example_app = init_app [''F'', ''SS''] [''F'', ''SS'']"

definition configured_app :: app where
  "configured_app = example_app\<lparr>game_area := Some (0, 0, 200, 100),
     chisel_button_pos := Some (300, 400), buy_button_pos := Some (350, 450)\<rparr>"

subsection \<open>The settings updaters\<close>

text \<open>
  Each updater runs \<^verbatim>\<open>int(entry.get())\<close> inside \<^verbatim>\<open>try ... except ValueError: pass\<close>. The
  builtin \<^verbatim>\<open>int\<close> is the parameter \<open>py_int\<close>, which returns the integer or the exception
  it raises; only \<^verbatim>\<open>ValueError\<close> is caught, any other exception leaves the updater.
\<close>

definition update_tolerance :: "(string \<Rightarrow> py_error + int) \<Rightarrow> app \<Rightarrow> py_error + app" where
  "update_tolerance py_int s =
     (case py_int (tolerance_entry s) of
        Inr val \<Rightarrow> if 0 \<le> val \<and> val \<le> 255 then Inr (s\<lparr>tolerance := val\<rparr>) else Inr s
      | Inl ValueError \<Rightarrow> Inr s
      | Inl e \<Rightarrow> Inl e)"

definition update_stop_at :: "(string \<Rightarrow> py_error + int) \<Rightarrow> app \<Rightarrow> py_error + app" where
  "update_stop_at py_int s =
     (case py_int (stop_at_entry s) of
        Inr val \<Rightarrow> if val \<ge> 0 then Inr (s\<lparr>stop_at_ss := val\<rparr>) else Inr s
      | Inl ValueError \<Rightarrow> Inr s
      | Inl e \<Rightarrow> Inl e)"

definition update_min_objects :: "(string \<Rightarrow> py_error + int) \<Rightarrow> app \<Rightarrow> py_error + app" where
  "update_min_objects py_int s =
     (case py_int (min_objects_entry s) of
        Inr val \<Rightarrow> if val \<ge> 1 then Inr (s\<lparr>min_objects := val\<rparr>) else Inr s
      | Inl ValueError \<Rightarrow> Inr s
      | Inl e \<Rightarrow> Inl e)"

definition update_click_delay :: "(string \<Rightarrow> py_error + int) \<Rightarrow> app \<Rightarrow> py_error + app" where
  "update_click_delay py_int s =
     (case py_int (click_delay_entry s) of
        Inr val \<Rightarrow> if val \<ge> 0 then Inr (s\<lparr>click_delay_ms := val\<rparr>) else Inr s
      | Inl ValueError \<Rightarrow> Inr s
      | Inl e \<Rightarrow> Inl e)"

definition update_post_reroll_delay :: "(string \<Rightarrow> py_error + int) \<Rightarrow> app \<Rightarrow> py_error + app" where
  "update_post_reroll_delay py_int s =
     (case py_int (post_reroll_delay_entry s) of
        Inr val \<Rightarrow> if val \<ge> 0 then Inr (s\<lparr>post_reroll_delay_ms := val\<rparr>) else Inr s
      | Inl ValueError \<Rightarrow> Inr s
      | Inl e \<Rightarrow> Inl e)"

definition update_image_poll_delay :: "(string \<Rightarrow> py_error + int) \<Rightarrow> app \<Rightarrow> py_error + app" where
  "update_image_poll_delay py_int s =
     (case py_int (image_poll_delay_entry s) of
        Inr val \<Rightarrow> if val \<ge> 0 then Inr (s\<lparr>image_poll_delay_ms := val\<rparr>) else Inr s
      | Inl ValueError \<Rightarrow> Inr s
      | Inl e \<Rightarrow> Inl e)"

definition update_object_tolerance :: "(string \<Rightarrow> py_error + int) \<Rightarrow> app \<Rightarrow> py_error + app" where
  "update_object_tolerance py_int s =
     (case py_int (object_tolerance_entry s) of
        Inr val \<Rightarrow> if val \<ge> 0 then Inr (s\<lparr>object_tolerance := val\<rparr>) else Inr s
      | Inl ValueError \<Rightarrow> Inr s
      | Inl e \<Rightarrow> Inl e)"

text \<open>
  A reading of \<^verbatim>\<open>int\<close> on ASCII text, for running the updaters on concrete input:
  surrounding whitespace is dropped, one sign is allowed, and the digits may be separated by
  single underscores.
\<close>

definition is_digit :: "char \<Rightarrow> bool" where
  "is_digit c \<longleftrightarrow> c \<in> set ''0123456789''"

definition digit_value :: "char \<Rightarrow> nat" where
  "digit_value c = of_char c - 48"

definition is_space :: "char \<Rightarrow> bool" where
  "is_space c \<longleftrightarrow> c \<in> {CHR '' '', CHR 0x09, CHR 0x0A, CHR 0x0B, CHR 0x0C, CHR 0x0D}"

definition strip :: "string \<Rightarrow> string" where
  "strip t = rev (dropWhile is_space (rev (dropWhile is_space t)))"

fun more_digits :: "nat \<Rightarrow> string \<Rightarrow> nat option" where
  "more_digits acc [] = Some acc"
| "more_digits acc [c] = (if is_digit c then Some (10 * acc + digit_value c) else None)"
| "more_digits acc (c # d # cs) =
     (if is_digit c then more_digits (10 * acc + digit_value c) (d # cs)
      else if c = CHR ''_'' \<and> is_digit d then more_digits (10 * acc + digit_value d) cs
      else None)"

definition decimal_int :: "string \<Rightarrow> py_error + int" where
  "decimal_int t =
     (let body = strip t;
          negative = (body \<noteq> [] \<and> hd body = CHR ''-'');
          digits = (if body \<noteq> [] \<and> hd body \<in> {CHR ''-'', CHR ''+''} then tl body else body)
      in case digits of
           [] \<Rightarrow> Inl ValueError
         | c # cs \<Rightarrow>
             if is_digit c then
               (case more_digits (digit_value c) cs of
                  None \<Rightarrow> Inl ValueError
                | Some n \<Rightarrow> Inr (if negative then - int n else int n))
             else Inl ValueError)"

text \<open>
  What an updater's field holds afterwards: the parsed value when the text parses to a valid
  value, the previous value otherwise.
\<close>

definition stored :: "(string \<Rightarrow> py_error + int) \<Rightarrow> string \<Rightarrow> (int \<Rightarrow> bool) \<Rightarrow> int \<Rightarrow> int" where
  "stored py_int text valid previous =
     (case py_int text of Inr val \<Rightarrow> if valid val then val else previous | Inl _ \<Rightarrow> previous)"

subsection \<open>Starting a run\<close>

definition update_status :: "bool \<Rightarrow> app \<Rightarrow> app" where
  "update_status is_running s =
     (if is_running then s\<lparr>status_var := ''Status: Running'', status_label_fg := ''#55ff55''\<rparr>
      else s\<lparr>status_var := ''Status: Suspended'', status_label_fg := ''#ff5555''\<rparr>)"

text \<open>The message of the f-string for a window that does not exist.\<close>

definition window_not_found :: "string \<Rightarrow> string" where
  "window_not_found target_title =
     ''Error: Game window '' @ [CHR 0x27] @ target_title @ [CHR 0x27]
       @ '' not found. Please ensure it'' @ [CHR 0x27] @ ''s open.''"

text \<open>
  \<^verbatim>\<open>start_running_async\<close>. The query \<^verbatim>\<open>self.ahk.win_exists\<close> is the parameter
  \<open>win_exists\<close>; the pause \<^verbatim>\<open>time.sleep(0.1)\<close> has no effect on the state.
\<close>

definition start_running_async :: "(string \<Rightarrow> bool) \<Rightarrow> app \<Rightarrow> app" where
  "start_running_async win_exists s =
     (if game_area s = None then s\<lparr>message_var := ''Please select area first.''\<rparr>
      else if chisel_button_pos s = None then s\<lparr>message_var := ''Please set Chisel Button first.''\<rparr>
      else if buy_button_pos s = None then s\<lparr>message_var := ''Please set Buy Button first.''\<rparr>
      else
        let target_title = game_window_title s in
        if target_title = [] then s\<lparr>message_var := ''Please enter a Game Window Title.''\<rparr>
        else if \<not> win_exists target_title then s\<lparr>message_var := window_not_found target_title\<rparr>
        else
          let s1 = s\<lparr>performed := performed s @ [WinActivate target_title]\<rparr>;
              s2 = s1\<lparr>message_var := ''Game window activated. Starting reroll.''\<rparr>;
              s3 = s2\<lparr>running := True\<rparr>;
              s4 = update_status True s3;
              s5 = s4\<lparr>stop_reroll_event := False\<rparr>;
              s6 = (if (case image_processor_thread s5 of None \<Rightarrow> True | Some t \<Rightarrow> \<not> ip_alive t)
                    then s5\<lparr>image_processor_thread := Some \<lparr>ip_alive = True, ip_stop_event = False\<rparr>,
                            performed := performed s5 @ [StartImageProcessor]\<rparr>
                    else s5);
              s7 = (if (case reroll_loop_thread s6 of None \<Rightarrow> True | Some alive \<Rightarrow> \<not> alive)
                    then s6\<lparr>reroll_loop_thread := Some True,
                            performed := performed s6 @ [StartRerollLoop]\<rparr>
                    else s6)
          in s7)"

text \<open>
  The preconditions of a run as the specification lists them, the messages of the five early
  returns, and the thread starts among the calls performed.
\<close>

definition start_preconditions :: "(string \<Rightarrow> bool) \<Rightarrow> app \<Rightarrow> bool" where
  "start_preconditions win_exists s \<longleftrightarrow>
     game_area s \<noteq> None \<and> chisel_button_pos s \<noteq> None \<and> buy_button_pos s \<noteq> None
     \<and> game_window_title s \<noteq> [] \<and> win_exists (game_window_title s)"

definition precondition_messages :: "string \<Rightarrow> string list" where
  "precondition_messages target_title =
     [''Please select area first.'', ''Please set Chisel Button first.'',
      ''Please set Buy Button first.'', ''Please enter a Game Window Title.'',
      window_not_found target_title]"

definition thread_starts :: "action list \<Rightarrow> action list" where
  "thread_starts acts = filter (\<lambda>a. a = StartImageProcessor \<or> a = StartRerollLoop) acts"

subsection \<open>Publishing the rank counts\<close>

text \<open>\<^verbatim>\<open>str\<close> of an integer: its decimal digits, after a minus sign when it is negative.\<close>

definition digit_char :: "nat \<Rightarrow> char" where
  "digit_char d = ''0123456789'' ! d"

fun str_nat :: "nat \<Rightarrow> string" where
  "str_nat n = (if n < 10 then [digit_char n] else str_nat (n div 10) @ [digit_char (n mod 10)])"

declare str_nat.simps [simp del]

definition py_str :: "int \<Rightarrow> string" where
  "py_str i = (if i < 0 then CHR ''-'' # str_nat (nat (- i)) else str_nat (nat i))"

text \<open>
  The three loops of \<^verbatim>\<open>update_rank_counts_gui\<close>: the counts of the ranks that have a
  display variable are set to 0; every object increments the count of its rank, and a rank
  that is no key of \<^verbatim>\<open>rank_counts\<close> raises \<^verbatim>\<open>KeyError\<close>; every display variable is set to
  the text of its rank's count.
\<close>

fun reset_counts :: "string list \<Rightarrow> (string \<rightharpoonup> int) \<Rightarrow> (string \<rightharpoonup> int)" where
  "reset_counts [] counts = counts"
| "reset_counts (rank # ranks) counts = reset_counts ranks (counts(rank \<mapsto> 0))"

fun count_objs :: "detected_obj list \<Rightarrow> (string \<rightharpoonup> int) \<Rightarrow> py_error + (string \<rightharpoonup> int)" where
  "count_objs [] counts = Inr counts"
| "count_objs (ob # objs) counts =
     (case counts (obj_rank ob) of
        None \<Rightarrow> Inl KeyError
      | Some c \<Rightarrow> count_objs objs (counts(obj_rank ob \<mapsto> c + 1)))"

fun refresh_vars :: "(string \<rightharpoonup> int) \<Rightarrow> (string \<times> string) list \<Rightarrow> py_error + (string \<times> string) list" where
  "refresh_vars counts [] = Inr []"
| "refresh_vars counts ((rank, v) # vars) =
     (case counts rank of
        None \<Rightarrow> Inl KeyError
      | Some c \<Rightarrow>
          (case refresh_vars counts vars of
             Inl e \<Rightarrow> Inl e
           | Inr vars' \<Rightarrow> Inr ((rank, py_str c) # vars')))"

text \<open>
  \<^verbatim>\<open>update_rank_counts_gui\<close>. When an exception is raised the result is the exception, and
  the partly updated state is not returned.
\<close>

definition update_rank_counts_gui :: "detected_obj list \<Rightarrow> app \<Rightarrow> py_error + app" where
  "update_rank_counts_gui detected_objs s =
     (let s1 = s\<lparr>last_detected_objs := detected_objs\<rparr>;
          zeroed = reset_counts (map fst (rank_count_vars s1)) (rank_counts s1)
      in case count_objs detected_objs zeroed of
           Inl e \<Rightarrow> Inl e
         | Inr counts \<Rightarrow>
             (case refresh_vars counts (rank_count_vars s1) of
                Inl e \<Rightarrow> Inl e
              | Inr vars \<Rightarrow> Inr (s1\<lparr>rank_counts := counts, rank_count_vars := vars\<rparr>)))"

text \<open>The number of objects of a rank in a list, and a list of three objects.\<close>

definition objects_of_rank :: "string \<Rightarrow> detected_obj list \<Rightarrow> int" where
  "objects_of_rank rank objs = int (length (filter (\<lambda>ob. obj_rank ob = rank) objs))"

definition example_objs :: "detected_obj list" where
  "example_objs =
     [\<lparr>obj_rank = ''SS'', obj_rect = (0, 0, 2, 2), obj_cv2color = (0, 0, 0)\<rparr>,
      \<lparr>obj_rank = ''F'', obj_rect = (0, 0, 2, 2), obj_cv2color = (10, 20, 30)\<rparr>,
      \<lparr>obj_rank = ''F'', obj_rect = (9, 0, 2, 2), obj_cv2color = (10, 20, 30)\<rparr>]"

subsection \<open>The reroll loop\<close>

text \<open>
  A rank-count snapshot is the dict that \<^verbatim>\<open>get_current_rank_counts()\<close> returns, as the list
  of its items. The class \<^verbatim>\<open>ImageProcessor\<close> lies outside the modelled file, so what the
  loop observes of it and of the cancellation event is an input: for each pass of the
  \<^verbatim>\<open>while\<close> loop, either the check that found the event set (the loop test, the wait before
  the clicks, the wait after the chisel click, the wait after the buy click) or, for a pass
  that ran to its end, the snapshot it read there.
\<close>

type_synonym snapshot = "(string \<times> int) list"

datatype cycle_obs =
    SetAtLoopTest
  | SetAtFirstWait
  | SetAfterChisel
  | SetAfterBuy
  | Completed snapshot

text \<open>
  \<^verbatim>\<open>click_at\<close> as the calls it makes to AutoHotkey, and \<^verbatim>\<open>self.click_at(*pos)\<close>, which
  raises \<^verbatim>\<open>TypeError\<close> when the position is \<^verbatim>\<open>None\<close>.
\<close>

definition click_at :: "int \<Rightarrow> int \<Rightarrow> action list" where
  "click_at x y = [MouseMove x y, MouseMoveRelative 0 (- 1), Click]"

definition click_at_pos :: "(int \<times> int) option \<Rightarrow> py_error + action list" where
  "click_at_pos pos = (case pos of None \<Rightarrow> Inl TypeError | Some (x, y) \<Rightarrow> Inr (click_at x y))"

text \<open>\<^verbatim>\<open>current_counts.get(k, default)\<close>.\<close>

definition dict_get :: "snapshot \<Rightarrow> string \<Rightarrow> int \<Rightarrow> int" where
  "dict_get d k dflt = (case map_of d k of None \<Rightarrow> dflt | Some v \<Rightarrow> v)"

text \<open>
  \<^verbatim>\<open>sum(count for rank, count in current_counts.items() if RANK_ORDER[rank] >= min_rank_idx)\<close>.
\<close>

fun sum_filtered :: "(string \<rightharpoonup> int) \<Rightarrow> int \<Rightarrow> snapshot \<Rightarrow> py_error + int" where
  "sum_filtered RANK_ORDER min_rank_idx [] = Inr 0"
| "sum_filtered RANK_ORDER min_rank_idx ((rank, cnt) # items) =
     (case RANK_ORDER rank of
        None \<Rightarrow> Inl KeyError
      | Some k \<Rightarrow>
          (case sum_filtered RANK_ORDER min_rank_idx items of
             Inl e \<Rightarrow> Inl e
           | Inr rest_sum \<Rightarrow> Inr ((if k \<ge> min_rank_idx then cnt else 0) + rest_sum)))"

text \<open>The local variables of \<^verbatim>\<open>reroll_loop\<close> that outlive a pass, and the clicks issued so far.\<close>

record loop_vars =
  ss_count :: int
  filtered_count :: int
  clicks :: "action list"

text \<open>
  The start of a pass after the first wait: \<^verbatim>\<open>min_rank_idx = RANK_ORDER[self.min_quality]\<close>
  and the comprehension \<^verbatim>\<open>filtered_objs\<close>, which looks up the rank of every cached object.
  The call to \<^verbatim>\<open>log_event\<close> changes none of the loop's variables and is left out.
\<close>

definition cycle_prefix :: "(string \<rightharpoonup> int) \<Rightarrow> app \<Rightarrow> py_error + int" where
  "cycle_prefix RANK_ORDER s =
     (case RANK_ORDER (min_quality s) of
        None \<Rightarrow> Inl KeyError
      | Some min_rank_idx \<Rightarrow>
          if list_all (\<lambda>ob. RANK_ORDER (obj_rank ob) \<noteq> None) (last_detected_objs s)
          then Inr min_rank_idx else Inl KeyError)"

text \<open>
  The \<^verbatim>\<open>while\<close> loop over the observations, with the settings held fixed during the run.
  The result is \<open>None\<close> when the observations end before the event is seen set: the loop is
  still running.
\<close>

fun reroll_cycles ::
  "(string \<rightharpoonup> int) \<Rightarrow> app \<Rightarrow> cycle_obs list \<Rightarrow> loop_vars \<Rightarrow> (py_error + loop_vars) option" where
  "reroll_cycles RANK_ORDER s [] v = None"
| "reroll_cycles RANK_ORDER s (SetAtLoopTest # obs) v = Some (Inr v)"
| "reroll_cycles RANK_ORDER s (SetAtFirstWait # obs) v = Some (Inr v)"
| "reroll_cycles RANK_ORDER s (SetAfterChisel # obs) v =
     (case cycle_prefix RANK_ORDER s of
        Inl e \<Rightarrow> Some (Inl e)
      | Inr min_rank_idx \<Rightarrow>
          (case click_at_pos (chisel_button_pos s) of
             Inl e \<Rightarrow> Some (Inl e)
           | Inr c1 \<Rightarrow> Some (Inr (v\<lparr>clicks := clicks v @ c1\<rparr>))))"
| "reroll_cycles RANK_ORDER s (SetAfterBuy # obs) v =
     (case cycle_prefix RANK_ORDER s of
        Inl e \<Rightarrow> Some (Inl e)
      | Inr min_rank_idx \<Rightarrow>
          (case click_at_pos (chisel_button_pos s) of
             Inl e \<Rightarrow> Some (Inl e)
           | Inr c1 \<Rightarrow>
               (case click_at_pos (buy_button_pos s) of
                  Inl e \<Rightarrow> Some (Inl e)
                | Inr c2 \<Rightarrow> Some (Inr (v\<lparr>clicks := clicks v @ c1 @ c2\<rparr>)))))"
| "reroll_cycles RANK_ORDER s (Completed current_counts # obs) v =
     (case cycle_prefix RANK_ORDER s of
        Inl e \<Rightarrow> Some (Inl e)
      | Inr min_rank_idx \<Rightarrow>
          (case click_at_pos (chisel_button_pos s) of
             Inl e \<Rightarrow> Some (Inl e)
           | Inr c1 \<Rightarrow>
               (case click_at_pos (buy_button_pos s) of
                  Inl e \<Rightarrow> Some (Inl e)
                | Inr c2 \<Rightarrow>
                    (case sum_filtered RANK_ORDER min_rank_idx current_counts of
                       Inl e \<Rightarrow> Some (Inl e)
                     | Inr new_filtered_count \<Rightarrow>
                         reroll_cycles RANK_ORDER s obs
                           \<lparr>ss_count = dict_get current_counts ''SS'' 0,
                            filtered_count = new_filtered_count,
                            clicks = clicks v @ c1 @ c2\<rparr>))))"

text \<open>
  What a finished run has done: the clicks it issued and the \<^verbatim>\<open>stopped_from_condition\<close>
  argument of its last \<^verbatim>\<open>discord_rpc.update\<close> call (\<open>None\<close> when \<^verbatim>\<open>ENABLE_DISCORD_RPC\<close> is
  off and no call is made).
\<close>

record report =
  issued :: "action list"
  stopped_from_condition :: "bool option"

text \<open>
  \<^verbatim>\<open>reroll_loop\<close>: after the loop the snapshot is read once more and \<^verbatim>\<open>ss_count\<close> is taken
  from it; \<^verbatim>\<open>filtered_count\<close> keeps the value of the last pass that ran to its end.
\<close>

definition reroll_loop ::
  "bool \<Rightarrow> (string \<rightharpoonup> int) \<Rightarrow> app \<Rightarrow> cycle_obs list \<Rightarrow> snapshot \<Rightarrow> (py_error + report) option" where
  "reroll_loop ENABLE_DISCORD_RPC RANK_ORDER s obs final_counts =
     (case reroll_cycles RANK_ORDER s obs \<lparr>ss_count = 0, filtered_count = 0, clicks = []\<rparr> of
        None \<Rightarrow> None
      | Some (Inl e) \<Rightarrow> Some (Inl e)
      | Some (Inr v) \<Rightarrow>
          let final_ss_count = dict_get final_counts ''SS'' 0
          in Some (Inr \<lparr>issued = clicks v,
                stopped_from_condition =
                  (if ENABLE_DISCORD_RPC then
                     Some ((min_objects s > 0 \<and> filtered_count v \<ge> min_objects s)
                           \<or> (stop_at_ss s > 0 \<and> final_ss_count \<ge> stop_at_ss s))
                   else None)\<rparr>))"

text \<open>
  The stop condition in the specification's words, over one snapshot: the count of objects
  whose rank ordinal is at least that of the minimum rank, and the test itself.
\<close>

definition eligible :: "(string \<rightharpoonup> int) \<Rightarrow> string \<Rightarrow> snapshot \<Rightarrow> int" where
  "eligible RANK_ORDER min_rank current_counts =
     sum_list (map snd (filter (\<lambda>(rank, cnt).
        the (RANK_ORDER rank) \<ge> the (RANK_ORDER min_rank)) current_counts))"

definition stop_condition :: "(string \<rightharpoonup> int) \<Rightarrow> app \<Rightarrow> snapshot \<Rightarrow> bool" where
  "stop_condition RANK_ORDER s current_counts \<longleftrightarrow>
     (stop_at_ss s > 0 \<and> dict_get current_counts ''SS'' 0 \<ge> stop_at_ss s)
     \<or> eligible RANK_ORDER (min_quality s) current_counts \<ge> min_objects s"

section \<open>Verified properties\<close>

subsection \<open>The colour mask\<close>

lemma sint_astype_int16: "sint (astype_int16 v) = uint v"
proof -
  have hi: "uint v < 256" using uint_bounded [of v] by simp
  have lo: "0 \<le> uint v" by (rule uint_nonnegative)
  have "signed_take_bit 15 (uint v) = uint v"
  proof (rule signed_take_bit_int_eq_self)
    have "- (2 ^ 15) \<le> (0::int)" by simp
    then show "- (2 ^ 15) \<le> uint v" using lo by (rule order_trans)
    have "(256::int) \<le> 2 ^ 15" by simp
    with hi show "uint v < 2 ^ 15" by (rule less_le_trans)
  qed
  then show ?thesis
    by (simp add: astype_int16_def signed_ucast_eq)
qed

lemma abs_diff_uint: "abs_diff v c = \<bar>uint v - c\<bar>"
  by (simp add: abs_diff_def sint_astype_int16)

text \<open>
  Claim C1. The mask has the shape of the frame, and at every position it holds 255 exactly
  when the sample is within the tolerance of the reference colour on each of the three
  channels at once (a conjunction per channel, no sum and no Euclidean norm); every other
  position holds 0.
\<close>

theorem rank_mask_per_channel:
  assumes "i < length frame" and "j < length (frame ! i)" and "frame ! i ! j = (b, g, r)"
  shows "length (rank_mask frame (cb, cg, cr) tol) = length frame
       \<and> length (rank_mask frame (cb, cg, cr) tol ! i) = length (frame ! i)
       \<and> (rank_mask frame (cb, cg, cr) tol ! i ! j = 255 \<longleftrightarrow>
            \<bar>uint b - cb\<bar> \<le> tol \<and> \<bar>uint g - cg\<bar> \<le> tol \<and> \<bar>uint r - cr\<bar> \<le> tol)
       \<and> (rank_mask frame (cb, cg, cr) tol ! i ! j \<noteq> 255 \<longrightarrow>
            rank_mask frame (cb, cg, cr) tol ! i ! j = 0)"
  using assms by (simp add: rank_mask_def all_within_def abs_diff_uint)

text \<open>
  In the example frame with reference colour (10, 20, 30) and tolerance 5, the pixel
  (15, 25, 36) is left out because its third channel alone is 6 away, and (5, 25, 35),
  whose three differences are all 5 (their sum is 15), is marked.
\<close>

theorem rank_mask_per_channel_witness:
  "rank_mask example_frame (10, 20, 30) 5 ! 0 ! 1 = 0
   \<and> rank_mask example_frame (10, 20, 30) 5 ! 1 ! 1 = 255"
  using rank_mask_per_channel [of 0 example_frame 1 15 25 36 10 20 30 5]
    rank_mask_per_channel [of 1 example_frame 1 5 25 35 10 20 30 5]
  by (simp add: example_frame_def)

lemma all_within_mono: "t1 \<le> t2 \<Longrightarrow> all_within p c t1 \<Longrightarrow> all_within p c t2"
  by (auto simp: all_within_def split: prod.splits)

lemma filter_length_mono:
  "(\<And>x. x \<in> set xs \<Longrightarrow> P x \<Longrightarrow> Q x) \<Longrightarrow> length (filter P xs) \<le> length (filter Q xs)"
  by (induction xs) auto

lemma marked_pixels_rank_mask:
  "marked_pixels (rank_mask frame c t) =
     sum_list (map (\<lambda>row. length (filter (\<lambda>p. all_within p c t) row)) frame)"
proof -
  have "(\<lambda>p. (if all_within p c t then 1 else 0) * (255 :: 8 word) = 255) = (\<lambda>p. all_within p c t)"
    by (rule ext) simp
  then show ?thesis
    by (simp add: marked_pixels_def rank_mask_def filter_map o_def)
qed

text \<open>
  Claim C6. A larger tolerance never marks fewer pixels: for tolerances \<open>t1 \<le> t2\<close> the
  mask of the same frame and colour at \<open>t1\<close> has at most as many marked pixels as at \<open>t2\<close>.
\<close>

theorem rank_mask_tolerance_mono:
  assumes "t1 \<le> t2"
  shows "marked_pixels (rank_mask frame c t1) \<le> marked_pixels (rank_mask frame c t2)"
proof -
  have row: "length (filter (\<lambda>p. all_within p c t1) row)
           \<le> length (filter (\<lambda>p. all_within p c t2) row)" for row
    by (rule filter_length_mono) (rule all_within_mono [OF assms])
  show ?thesis
    unfolding marked_pixels_rank_mask
    by (induction frame) (simp_all add: add_mono row)
qed

theorem rank_mask_tolerance_mono_witness:
  "(5::int) \<le> 6
   \<and> marked_pixels (rank_mask example_frame (10, 20, 30) 5)
     \<le> marked_pixels (rank_mask example_frame (10, 20, 30) 6)
   \<and> marked_pixels (rank_mask example_frame (10, 20, 30) 5) = 2
   \<and> marked_pixels (rank_mask example_frame (10, 20, 30) 6) = 3"
  using rank_mask_tolerance_mono [of 5 6 example_frame "(10, 20, 30)"]
  by (simp add: example_frame_def marked_pixels_rank_mask all_within_def abs_diff_uint)

subsection \<open>The distance between two rectangles\<close>

lemma axis_gap:
  fixes a1 l1 a2 l2 :: int
  assumes "0 \<le> l1" and "0 \<le> l2"
  shows "(if a1 + l1 < a2 then a2 - (a1 + l1) else if a2 + l2 < a1 then a1 - (a2 + l2) else 0)
       = (if overlap_or_touch {a1 .. a1 + l1} {a2 .. a2 + l2} then 0
          else nearest_edges a1 (a1 + l1) a2 (a2 + l2))"
  using assms by (auto simp: overlap_or_touch_def nearest_edges_def Int_atLeastAtMost)

text \<open>
  Claim C2. For two rectangles (widths and heights not negative), \<open>rect_distance\<close> is 0
  when the projections overlap or touch on both axes, and in every case it is the hypotenuse
  of the horizontal gap and the vertical gap, each gap being 0 when the projections on that
  axis overlap or touch and the distance between the nearest edges otherwise.
\<close>

theorem rect_distance_gaps:
  assumes "0 \<le> w1" and "0 \<le> h1" and "0 \<le> w2" and "0 \<le> h2"
  shows "(overlap_or_touch (x_projection (x1, y1, w1, h1)) (x_projection (x2, y2, w2, h2))
          \<and> overlap_or_touch (y_projection (x1, y1, w1, h1)) (y_projection (x2, y2, w2, h2))
          \<longrightarrow> rect_distance (x1, y1, w1, h1) (x2, y2, w2, h2) = 0)
       \<and> rect_distance (x1, y1, w1, h1) (x2, y2, w2, h2)
         = sqrt ((real_of_int (horizontal_gap (x1, y1, w1, h1) (x2, y2, w2, h2)))\<^sup>2
               + (real_of_int (vertical_gap (x1, y1, w1, h1) (x2, y2, w2, h2)))\<^sup>2)"
proof -
  have dist: "rect_distance (x1, y1, w1, h1) (x2, y2, w2, h2)
         = sqrt ((real_of_int (horizontal_gap (x1, y1, w1, h1) (x2, y2, w2, h2)))\<^sup>2
               + (real_of_int (vertical_gap (x1, y1, w1, h1) (x2, y2, w2, h2)))\<^sup>2)"
    using axis_gap [OF assms(1) assms(3), of x1 x2] axis_gap [OF assms(2) assms(4), of y1 y2]
    by (simp add: rect_distance_def np_hypot_def horizontal_gap_def vertical_gap_def
        x_projection_def y_projection_def Let_def)
  show ?thesis
  proof (intro conjI impI)
    assume "overlap_or_touch (x_projection (x1, y1, w1, h1)) (x_projection (x2, y2, w2, h2))
          \<and> overlap_or_touch (y_projection (x1, y1, w1, h1)) (y_projection (x2, y2, w2, h2))"
    then show "rect_distance (x1, y1, w1, h1) (x2, y2, w2, h2) = 0"
      unfolding dist by (simp add: horizontal_gap_def vertical_gap_def)
  qed (rule dist)
qed

text \<open>
  Three pairs: touching on the y axis and overlapping on the x axis (distance 0); apart on
  both axes by 3 and 4 (distance 5); overlapping on the x axis and 5 apart on the y axis.
\<close>

theorem rect_distance_gaps_witness:
  "rect_distance (0, 0, 4, 4) (2, 4, 4, 4) = 0
   \<and> rect_distance (0, 0, 4, 4) (7, 8, 2, 2) = 5
   \<and> horizontal_gap (0, 0, 4, 4) (7, 8, 2, 2) = 3 \<and> vertical_gap (0, 0, 4, 4) (7, 8, 2, 2) = 4
   \<and> horizontal_gap (0, 0, 4, 4) (2, 9, 4, 4) = 0 \<and> rect_distance (0, 0, 4, 4) (2, 9, 4, 4) = 5"
  using rect_distance_gaps [of 4 4 4 4 0 0 2 4] rect_distance_gaps [of 4 4 2 2 0 0 7 8]
    rect_distance_gaps [of 4 4 4 4 0 0 2 9]
  by (simp add: horizontal_gap_def vertical_gap_def x_projection_def y_projection_def
      overlap_or_touch_def nearest_edges_def Int_atLeastAtMost)

subsection \<open>The rectangle merger\<close>

lemma fresh_zip: "zip rs (replicate (length rs) False) = map (\<lambda>r. (r, False)) rs"
  by (induction rs) simp_all

lemma merge_rectangles_fresh:
  "merge_rectangles rs d = merge_loop d (map (\<lambda>r. (r, False)) rs)"
  by (simp add: merge_rectangles_def fresh_zip)












lemma scan_later_far:
  "\<forall>q \<in> set rs. d < rect_distance r q \<Longrightarrow>
   scan_later r d (map (\<lambda>r. (r, False)) rs) m = (m, map (\<lambda>r. (r, False)) rs)"
  by (induction rs) auto

lemma merge_loop_far:
  "pairwise_apart d rs \<Longrightarrow> merge_loop d (map (\<lambda>r. (r, False)) rs) = rs"
proof (induction rs)
  case Nil
  then show ?case by simp
next
  case (Cons r rs)
  obtain x y w h where r: "r = (x, y, w, h)" by (cases r) auto
  from Cons.prems have far: "\<forall>q \<in> set rs. d < rect_distance r q" and rest: "pairwise_apart d rs"
    by simp_all
  show ?case
    using Cons.IH [OF rest] scan_later_far [OF far, of "(x, y, x + w, y + h)"]
    by (simp add: r)
qed

lemma unused_scan_later:
  "unused (snd (scan_later r d qs m)) \<le> unused qs"
  by (induction r d qs m rule: scan_later.induct) (auto simp: unused_def case_prod_beta)

lemma unused_scan_later_close:
  "\<exists>q \<in> set rs. rect_distance r q \<le> d \<Longrightarrow>
   unused (snd (scan_later r d (map (\<lambda>r. (r, False)) rs) m)) < length rs"
proof (induction rs arbitrary: m)
  case Nil
  then show ?case by simp
next
  case (Cons q rs)
  show ?case
  proof (cases "rect_distance r q \<le> d")
    case True
    have "unused (snd (scan_later r d (map (\<lambda>r. (r, False)) rs) (expand m q)))
          \<le> unused (map (\<lambda>r. (r, False)) rs)"
      by (rule unused_scan_later)
    also have "\<dots> = length rs" by (simp add: unused_def o_def)
    finally show ?thesis using True by (simp add: case_prod_beta unused_def)
  next
    case False
    with Cons.prems have "\<exists>q \<in> set rs. rect_distance r q \<le> d" by auto
    from Cons.IH [OF this, of m] show ?thesis using False
      by (simp add: case_prod_beta unused_def)
  qed
qed

text \<open>Every output rectangle consumes one unused input rectangle.\<close>

lemma length_merge_loop: "length (merge_loop d ps) \<le> unused ps"
proof (induction d ps rule: merge_loop.induct)
  case (1 d)
  then show ?case by simp
next
  case (2 d r used rest)
  show ?case
  proof (cases used)
    case True
    with 2 show ?thesis by (simp add: unused_def)
  next
    case False
    obtain x y w h where r: "r = (x, y, w, h)" by (cases r) auto
    obtain m0 m1 m2 m3 rest'
      where s: "scan_later r d rest (x, y, x + w, y + h) = ((m0, m1, m2, m3), rest')"
      by (cases "scan_later r d rest (x, y, x + w, y + h)") auto
    have "length (merge_loop d rest') \<le> unused rest'"
      by (rule 2(2) [OF False, of x "(y, w, h)" y "(w, h)" w h "(m0, m1, m2, m3)" rest'
            m0 "(m1, m2, m3)" m1 "(m2, m3)" m2 m3])
        (insert s, simp_all add: r)
    also have "\<dots> \<le> unused rest"
      using unused_scan_later [of r d rest "(x, y, x + w, y + h)"] s by simp
    finally show ?thesis using False r s by (simp add: unused_def)
  qed
qed

lemma merge_loop_fixed:
  "merge_loop d (map (\<lambda>r. (r, False)) rs) = rs \<Longrightarrow> pairwise_apart d rs"
proof (induction rs)
  case Nil
  then show ?case by simp
next
  case (Cons r rs)
  obtain x y w h where r: "r = (x, y, w, h)" by (cases r) auto
  let ?s = "scan_later r d (map (\<lambda>r. (r, False)) rs) (x, y, x + w, y + h)"
  obtain m rest' where s: "?s = (m, rest')" by (cases ?s) auto
  from Cons.prems r s have len: "length (merge_loop d rest') = length rs"
    by (auto split: prod.splits)
  have far: "\<forall>q \<in> set rs. d < rect_distance r q"
  proof (rule ccontr)
    assume "\<not> ?thesis"
    then have "\<exists>q \<in> set rs. rect_distance r q \<le> d" by (auto simp: not_less)
    from unused_scan_later_close [OF this, of "(x, y, x + w, y + h)"] s
    have "unused rest' < length rs" by simp
    with length_merge_loop [of d rest'] len show False by simp
  qed
  from scan_later_far [OF far, of "(x, y, x + w, y + h)"] s
  have "rest' = map (\<lambda>r. (r, False)) rs" by simp
  with Cons.prems r s have "merge_loop d (map (\<lambda>r. (r, False)) rs) = rs"
    by (auto split: prod.splits)
  from Cons.IH [OF this] far show ?case by simp
qed

lemma merge_rectangles_fixed_iff:
  "merge_rectangles rs d = rs \<longleftrightarrow> pairwise_apart d rs"
  using merge_loop_fixed merge_loop_far by (auto simp: merge_rectangles_fresh)

text \<open>
  Claim C5 as stated fails. With \<open>max_distance = 1\<close>, the rectangle (0,0,1,1) absorbs
  (2,0,7,1) into the envelope (0,0,9,1) and leaves (10,0,1,1), which is 9 away from it, alone;
  the envelope is only 1 away from (10,0,1,1), so a second pass merges the two.
\<close>

theorem merge_rectangles_not_idempotent:
  "merge_rectangles (merge_rectangles [(0, 0, 1, 1), (10, 0, 1, 1), (2, 0, 7, 1)] 1) 1
   \<noteq> merge_rectangles [(0, 0, 1, 1), (10, 0, 1, 1), (2, 0, 7, 1)] 1"
  by (simp add: merge_rectangles_def rect_distance_def np_hypot_def expand_def)

text \<open>
  Claim C5 as amended. A second pass with the same \<open>max_distance\<close> returns the output of
  the first pass unchanged exactly when the rectangles of that output are pairwise more than
  \<open>max_distance\<close> apart.
\<close>

theorem merge_rectangles_idempotent_iff:
  "merge_rectangles (merge_rectangles rs d) d = merge_rectangles rs d
   \<longleftrightarrow> pairwise_apart d (merge_rectangles rs d)"
  by (rule merge_rectangles_fixed_iff)

theorem merge_rectangles_idempotent_iff_witness:
  "pairwise_apart 0 (merge_rectangles [(0, 0, 4, 4), (5, 0, 4, 4)] 0)
   \<and> merge_rectangles (merge_rectangles [(0, 0, 4, 4), (5, 0, 4, 4)] 0) 0
     = merge_rectangles [(0, 0, 4, 4), (5, 0, 4, 4)] 0
   \<and> \<not> pairwise_apart 1 (merge_rectangles [(0, 0, 1, 1), (10, 0, 1, 1), (2, 0, 7, 1)] 1)"
proof -
  have out: "merge_rectangles [(0, 0, 4, 4), (5, 0, 4, 4)] 0 = [(0, 0, 4, 4), (5, 0, 4, 4)]"
    by (simp add: merge_rectangles_def rect_distance_def np_hypot_def expand_def)
  have apart: "pairwise_apart 0 (merge_rectangles [(0, 0, 4, 4), (5, 0, 4, 4)] 0)"
    unfolding out by (simp add: rect_distance_def np_hypot_def)
  have out3: "merge_rectangles [(0, 0, 1, 1), (10, 0, 1, 1), (2, 0, 7, 1)] 1
              = [(0, 0, 9, 1), (10, 0, 1, 1)]"
    by (simp add: merge_rectangles_def rect_distance_def np_hypot_def expand_def)
  have close: "\<not> pairwise_apart 1 (merge_rectangles [(0, 0, 1, 1), (10, 0, 1, 1), (2, 0, 7, 1)] 1)"
    unfolding out3 by (simp add: rect_distance_def np_hypot_def)
  from merge_rectangles_idempotent_iff [of "[(0, 0, 4, 4), (5, 0, 4, 4)]" 0] apart close
  show ?thesis by simp
qed

subsection \<open>The order of the classifier's result\<close>

lemma rank_of_detections:
  "ob \<in> set (all_detections RANKS cr tol ot frame) \<Longrightarrow> obj_rank ob \<in> fst ` set RANKS"
  by (auto simp: all_detections_def rank_detections_def split: prod.splits intro: rev_image_eqI)

lemma sorted_descending:
  fixes f :: "'a \<Rightarrow> int"
  assumes "sorted (map (\<lambda>ob. - f ob) xs)" and "i < length xs" and "j < length xs"
    and "f (xs ! j) < f (xs ! i)"
  shows "i < j"
proof (rule ccontr)
  assume "\<not> i < j"
  then have "j \<le> i" by simp
  from sorted_nth_mono [OF assms(1) this] assms(2) assms(3)
  have "- f (xs ! j) \<le> - f (xs ! i)" by simp
  with assms(4) show False by simp
qed

text \<open>
  Claim C7. When every rank of the table has an ordinal, \<open>detect_and_classify\<close> returns
  a list that holds the concatenated per-rank detections (as a multiset), in which an object
  of a higher ordinal stands before every object of a lower ordinal, and in which the objects
  of one ordinal keep the order in which they were emitted.
\<close>

theorem detect_and_classify_sorted:
  assumes "fst ` set RANKS \<subseteq> dom RANK_ORDER"
  shows "\<exists>result. detect_and_classify RANKS RANK_ORDER contour_rects tol obj_tol frame = Inr result
     \<and> mset result = mset (all_detections RANKS contour_rects tol obj_tol frame)
     \<and> (\<forall>i j. i < length result \<and> j < length result
            \<and> ordinal RANK_ORDER (result ! j) < ordinal RANK_ORDER (result ! i) \<longrightarrow> i < j)
     \<and> (\<forall>k. filter (\<lambda>ob. ordinal RANK_ORDER ob = k) result
            = filter (\<lambda>ob. ordinal RANK_ORDER ob = k)
                (all_detections RANKS contour_rects tol obj_tol frame))"
proof -
  let ?det = "all_detections RANKS contour_rects tol obj_tol frame"
  let ?key = "\<lambda>ob. - the (RANK_ORDER (obj_rank ob))"
  let ?res = "sort_key ?key ?det"
  have known: "list_all (\<lambda>ob. RANK_ORDER (obj_rank ob) \<noteq> None) ?det"
    unfolding list_all_iff using rank_of_detections [of _ RANKS contour_rects tol obj_tol frame] assms
    by blast
  then have res: "detect_and_classify RANKS RANK_ORDER contour_rects tol obj_tol frame = Inr ?res"
    by (simp add: detect_and_classify_def)
  have perm: "mset ?res = mset ?det" by simp
  have srt: "sorted (map (\<lambda>ob. - ordinal RANK_ORDER ob) ?res)"
    unfolding ordinal_def by (rule sorted_sort_key)
  have order: "\<forall>i j. i < length ?res \<and> j < length ?res
            \<and> ordinal RANK_ORDER (?res ! j) < ordinal RANK_ORDER (?res ! i) \<longrightarrow> i < j"
    using sorted_descending [OF srt] by blast
  have stable: "filter (\<lambda>ob. ordinal RANK_ORDER ob = k) ?res
            = filter (\<lambda>ob. ordinal RANK_ORDER ob = k) ?det" for k
  proof -
    have "filter (\<lambda>ob. ?key ob = - k) ?res = filter (\<lambda>ob. ?key ob = - k) ?det"
      by (rule sort_key_stable)
    then show ?thesis by (simp add: ordinal_def)
  qed
  from res perm order stable show ?thesis by blast
qed

text \<open>
  In the example the rank F is detected first and SS second; the result lists SS first.
\<close>

theorem detect_and_classify_sorted_witness:
  "fst ` set example_RANKS \<subseteq> dom example_RANK_ORDER
   \<and> all_detections example_RANKS example_contours 5 10 example_frame
       = [\<lparr>obj_rank = ''F'', obj_rect = (0, 0, 2, 2), obj_cv2color = (10, 20, 30)\<rparr>,
          \<lparr>obj_rank = ''SS'', obj_rect = (0, 0, 2, 2), obj_cv2color = (0, 0, 0)\<rparr>]
   \<and> detect_and_classify example_RANKS example_RANK_ORDER example_contours 5 10 example_frame
       = Inr [\<lparr>obj_rank = ''SS'', obj_rect = (0, 0, 2, 2), obj_cv2color = (0, 0, 0)\<rparr>,
              \<lparr>obj_rank = ''F'', obj_rect = (0, 0, 2, 2), obj_cv2color = (10, 20, 30)\<rparr>]"
proof -
  have dom: "fst ` set example_RANKS \<subseteq> dom example_RANK_ORDER"
    by (simp add: example_RANKS_def example_RANK_ORDER_def)
  have m1: "marked_pixels (rank_mask example_frame (10, 20, 30) 5) = 2"
    by (simp add: example_frame_def marked_pixels_rank_mask all_within_def abs_diff_uint)
  have m2: "marked_pixels (rank_mask example_frame (0, 0, 0) 5) = 1"
    by (simp add: example_frame_def marked_pixels_rank_mask all_within_def abs_diff_uint)
  have det: "all_detections example_RANKS example_contours 5 10 example_frame
       = [\<lparr>obj_rank = ''F'', obj_rect = (0, 0, 2, 2), obj_cv2color = (10, 20, 30)\<rparr>,
          \<lparr>obj_rank = ''SS'', obj_rect = (0, 0, 2, 2), obj_cv2color = (0, 0, 0)\<rparr>]"
    by (simp add: all_detections_def rank_detections_def example_RANKS_def example_contours_def
        m1 m2 merge_rectangles_def)
  from detect_and_classify_sorted [OF dom, of example_contours 5 10 example_frame]
  have ex: "\<exists>result. detect_and_classify example_RANKS example_RANK_ORDER example_contours 5 10
          example_frame = Inr result"
    by (elim exE conjE) (erule exI)
  have val: "detect_and_classify example_RANKS example_RANK_ORDER example_contours 5 10 example_frame
       = Inr [\<lparr>obj_rank = ''SS'', obj_rect = (0, 0, 2, 2), obj_cv2color = (0, 0, 0)\<rparr>,
              \<lparr>obj_rank = ''F'', obj_rect = (0, 0, 2, 2), obj_cv2color = (10, 20, 30)\<rparr>]"
    by (simp add: detect_and_classify_def det example_RANK_ORDER_def)
  from ex dom det val show ?thesis by simp
qed


subsection \<open>The settings updaters\<close>

lemma decimal_int_only_ValueError: "decimal_int t = Inl e \<Longrightarrow> e = ValueError"
  by (auto simp: decimal_int_def Let_def split: list.splits if_splits option.splits)

text \<open>
  Claim C8. Given that \<^verbatim>\<open>int\<close> raises nothing but \<^verbatim>\<open>ValueError\<close>, each of the seven
  updaters returns normally, and the state it returns differs from the previous one at most
  in its own field, which holds the parsed value when the text is an integer in the field's
  range (0 to 255 for the colour tolerance, at least 1 for the minimum object count, at
  least 0 for the stop-at count, the three delays and the object tolerance) and the previous
  value otherwise.
\<close>

theorem settings_updaters_total:
  assumes "\<forall>t e. py_int t = Inl e \<longrightarrow> e = ValueError"
  shows "update_tolerance py_int s
           = Inr (s\<lparr>tolerance := stored py_int (tolerance_entry s) (\<lambda>v. 0 \<le> v \<and> v \<le> 255) (tolerance s)\<rparr>)
       \<and> update_stop_at py_int s
           = Inr (s\<lparr>stop_at_ss := stored py_int (stop_at_entry s) (\<lambda>v. 0 \<le> v) (stop_at_ss s)\<rparr>)
       \<and> update_min_objects py_int s
           = Inr (s\<lparr>min_objects := stored py_int (min_objects_entry s) (\<lambda>v. 1 \<le> v) (min_objects s)\<rparr>)
       \<and> update_click_delay py_int s
           = Inr (s\<lparr>click_delay_ms := stored py_int (click_delay_entry s) (\<lambda>v. 0 \<le> v) (click_delay_ms s)\<rparr>)
       \<and> update_post_reroll_delay py_int s
           = Inr (s\<lparr>post_reroll_delay_ms :=
                     stored py_int (post_reroll_delay_entry s) (\<lambda>v. 0 \<le> v) (post_reroll_delay_ms s)\<rparr>)
       \<and> update_image_poll_delay py_int s
           = Inr (s\<lparr>image_poll_delay_ms :=
                     stored py_int (image_poll_delay_entry s) (\<lambda>v. 0 \<le> v) (image_poll_delay_ms s)\<rparr>)
       \<and> update_object_tolerance py_int s
           = Inr (s\<lparr>object_tolerance :=
                     stored py_int (object_tolerance_entry s) (\<lambda>v. 0 \<le> v) (object_tolerance s)\<rparr>)"
proof -
  have only: "py_int t = Inl e \<Longrightarrow> e = ValueError" for t e
    using assms by blast
  have 1: "update_tolerance py_int s
           = Inr (s\<lparr>tolerance := stored py_int (tolerance_entry s) (\<lambda>v. 0 \<le> v \<and> v \<le> 255) (tolerance s)\<rparr>)"
    by (auto simp: update_tolerance_def stored_def split: sum.splits py_error.splits dest: only)
  have 2: "update_stop_at py_int s
           = Inr (s\<lparr>stop_at_ss := stored py_int (stop_at_entry s) (\<lambda>v. 0 \<le> v) (stop_at_ss s)\<rparr>)"
    by (auto simp: update_stop_at_def stored_def split: sum.splits py_error.splits dest: only)
  have 3: "update_min_objects py_int s
           = Inr (s\<lparr>min_objects := stored py_int (min_objects_entry s) (\<lambda>v. 1 \<le> v) (min_objects s)\<rparr>)"
    by (auto simp: update_min_objects_def stored_def split: sum.splits py_error.splits dest: only)
  have 4: "update_click_delay py_int s
           = Inr (s\<lparr>click_delay_ms := stored py_int (click_delay_entry s) (\<lambda>v. 0 \<le> v) (click_delay_ms s)\<rparr>)"
    by (auto simp: update_click_delay_def stored_def split: sum.splits py_error.splits dest: only)
  have 5: "update_post_reroll_delay py_int s
           = Inr (s\<lparr>post_reroll_delay_ms :=
                     stored py_int (post_reroll_delay_entry s) (\<lambda>v. 0 \<le> v) (post_reroll_delay_ms s)\<rparr>)"
    by (auto simp: update_post_reroll_delay_def stored_def split: sum.splits py_error.splits dest: only)
  have 6: "update_image_poll_delay py_int s
           = Inr (s\<lparr>image_poll_delay_ms :=
                     stored py_int (image_poll_delay_entry s) (\<lambda>v. 0 \<le> v) (image_poll_delay_ms s)\<rparr>)"
    by (auto simp: update_image_poll_delay_def stored_def split: sum.splits py_error.splits dest: only)
  have 7: "update_object_tolerance py_int s
           = Inr (s\<lparr>object_tolerance :=
                     stored py_int (object_tolerance_entry s) (\<lambda>v. 0 \<le> v) (object_tolerance s)\<rparr>)"
    by (auto simp: update_object_tolerance_def stored_def split: sum.splits py_error.splits dest: only)
  from 1 2 3 4 5 6 7 show ?thesis by (intro conjI)
qed


text \<open>
  The text 42 is stored as the tolerance; 256, a minimum object count of 0, the malformed 7x
  and a stop-at count of -1 leave the state as it was.
\<close>

theorem settings_updaters_total_witness:
  "update_tolerance decimal_int (example_app\<lparr>tolerance_entry := ''42''\<rparr>)
       = Inr (example_app\<lparr>tolerance_entry := ''42'', tolerance := 42\<rparr>)
   \<and> update_tolerance decimal_int (example_app\<lparr>tolerance_entry := ''256''\<rparr>)
       = Inr (example_app\<lparr>tolerance_entry := ''256''\<rparr>)
   \<and> update_min_objects decimal_int (example_app\<lparr>min_objects_entry := ''0''\<rparr>)
       = Inr (example_app\<lparr>min_objects_entry := ''0''\<rparr>)
   \<and> update_click_delay decimal_int (example_app\<lparr>click_delay_entry := ''7x''\<rparr>)
       = Inr (example_app\<lparr>click_delay_entry := ''7x''\<rparr>)
   \<and> update_stop_at decimal_int (example_app\<lparr>stop_at_entry := ''-1''\<rparr>)
       = Inr (example_app\<lparr>stop_at_entry := ''-1''\<rparr>)"
proof -
  have only: "\<forall>t e. decimal_int t = Inl e \<longrightarrow> e = ValueError"
    using decimal_int_only_ValueError by blast
  have p1: "decimal_int ''42'' = Inr 42" and p2: "decimal_int ''256'' = Inr 256"
    and p3: "decimal_int ''0'' = Inr 0" and p4: "decimal_int ''7x'' = Inl ValueError"
    and p5: "decimal_int ''-1'' = Inr (- 1)"
    by (simp_all add: decimal_int_def strip_def is_space_def is_digit_def digit_value_def)
  have old: "tolerance example_app = 10" "min_objects example_app = 1"
    "click_delay_ms example_app = 50" "stop_at_ss example_app = 0"
    by (simp_all add: example_app_def init_app_def)
  from settings_updaters_total [OF only, of "example_app\<lparr>tolerance_entry := ''42''\<rparr>"]
  have a: "update_tolerance decimal_int (example_app\<lparr>tolerance_entry := ''42''\<rparr>)
       = Inr (example_app\<lparr>tolerance_entry := ''42'', tolerance := 42\<rparr>)"
    by (simp add: stored_def p1)
  from settings_updaters_total [OF only, of "example_app\<lparr>tolerance_entry := ''256''\<rparr>"]
  have b: "update_tolerance decimal_int (example_app\<lparr>tolerance_entry := ''256''\<rparr>)
       = Inr (example_app\<lparr>tolerance_entry := ''256''\<rparr>)"
    by (simp add: stored_def p2 old)
  from settings_updaters_total [OF only, of "example_app\<lparr>min_objects_entry := ''0''\<rparr>"]
  have c: "update_min_objects decimal_int (example_app\<lparr>min_objects_entry := ''0''\<rparr>)
       = Inr (example_app\<lparr>min_objects_entry := ''0''\<rparr>)"
    by (simp add: stored_def p3 old)
  from settings_updaters_total [OF only, of "example_app\<lparr>click_delay_entry := ''7x''\<rparr>"]
  have d: "update_click_delay decimal_int (example_app\<lparr>click_delay_entry := ''7x''\<rparr>)
       = Inr (example_app\<lparr>click_delay_entry := ''7x''\<rparr>)"
    by (simp add: stored_def p4 old)
  from settings_updaters_total [OF only, of "example_app\<lparr>stop_at_entry := ''-1''\<rparr>"]
  have e: "update_stop_at decimal_int (example_app\<lparr>stop_at_entry := ''-1''\<rparr>)
       = Inr (example_app\<lparr>stop_at_entry := ''-1''\<rparr>)"
    by (simp add: stored_def p5 old)
  from a b c d e show ?thesis by (intro conjI)
qed


subsection \<open>Starting a run\<close>

text \<open>
  Claim C9. When a precondition fails (region, chisel point or buy point unset, empty window
  title, or no such window), \<open>start_running_async\<close> changes nothing but the message, which
  is one of the five precondition messages: no call is performed, so no thread is started,
  the thread handles, the running flag and the cancellation event are as before (the running
  flag is false before the call, since the hotkey handler starts a run only when it is). When
  all preconditions hold, the event is cleared, the running flag is set, both threads are
  alive afterwards, and each thread that was not alive has been started.
\<close>

theorem start_running_async_gate:
  "(\<not> start_preconditions win_exists s \<longrightarrow>
      start_running_async win_exists s
        = s\<lparr>message_var := message_var (start_running_async win_exists s)\<rparr>
      \<and> message_var (start_running_async win_exists s)
          \<in> set (precondition_messages (game_window_title s))
      \<and> performed (start_running_async win_exists s) = performed s
      \<and> image_processor_thread (start_running_async win_exists s) = image_processor_thread s
      \<and> reroll_loop_thread (start_running_async win_exists s) = reroll_loop_thread s
      \<and> running (start_running_async win_exists s) = running s
      \<and> (\<not> running s \<longrightarrow> \<not> running (start_running_async win_exists s))
      \<and> stop_reroll_event (start_running_async win_exists s) = stop_reroll_event s)
   \<and> (start_preconditions win_exists s \<longrightarrow>
      \<not> stop_reroll_event (start_running_async win_exists s)
      \<and> running (start_running_async win_exists s)
      \<and> (\<exists>t. image_processor_thread (start_running_async win_exists s) = Some t \<and> ip_alive t)
      \<and> reroll_loop_thread (start_running_async win_exists s) = Some True
      \<and> thread_starts (performed (start_running_async win_exists s))
          = thread_starts (performed s)
            @ (if (case image_processor_thread s of None \<Rightarrow> True | Some t \<Rightarrow> \<not> ip_alive t)
               then [StartImageProcessor] else [])
            @ (if (case reroll_loop_thread s of None \<Rightarrow> True | Some alive \<Rightarrow> \<not> alive)
               then [StartRerollLoop] else []))"
proof (intro conjI impI)
  assume fail: "\<not> start_preconditions win_exists s"
  then consider "game_area s = None"
    | "game_area s \<noteq> None" "chisel_button_pos s = None"
    | "game_area s \<noteq> None" "chisel_button_pos s \<noteq> None" "buy_button_pos s = None"
    | "game_area s \<noteq> None" "chisel_button_pos s \<noteq> None" "buy_button_pos s \<noteq> None"
      "game_window_title s = []"
    | "game_area s \<noteq> None" "chisel_button_pos s \<noteq> None" "buy_button_pos s \<noteq> None"
      "game_window_title s \<noteq> []" "\<not> win_exists (game_window_title s)"
    unfolding start_preconditions_def by blast
  then have early: "start_running_async win_exists s = s\<lparr>message_var := ''Please select area first.''\<rparr>
      \<or> start_running_async win_exists s = s\<lparr>message_var := ''Please set Chisel Button first.''\<rparr>
      \<or> start_running_async win_exists s = s\<lparr>message_var := ''Please set Buy Button first.''\<rparr>
      \<or> start_running_async win_exists s = s\<lparr>message_var := ''Please enter a Game Window Title.''\<rparr>
      \<or> start_running_async win_exists s = s\<lparr>message_var := window_not_found (game_window_title s)\<rparr>"
    by cases (simp_all add: start_running_async_def del: not_None_eq)
  from early show "start_running_async win_exists s
        = s\<lparr>message_var := message_var (start_running_async win_exists s)\<rparr>"
    by (elim disjE) simp_all
  from early show "message_var (start_running_async win_exists s)
          \<in> set (precondition_messages (game_window_title s))"
    by (elim disjE) (simp_all add: precondition_messages_def)
  from early show "performed (start_running_async win_exists s) = performed s"
    by (elim disjE) simp_all
  from early show "image_processor_thread (start_running_async win_exists s) = image_processor_thread s"
    by (elim disjE) simp_all
  from early show "reroll_loop_thread (start_running_async win_exists s) = reroll_loop_thread s"
    by (elim disjE) simp_all
  from early show run: "running (start_running_async win_exists s) = running s"
    by (elim disjE) simp_all
  show "\<not> running (start_running_async win_exists s)" if "\<not> running s"
    using run that by simp
  from early show "stop_reroll_event (start_running_async win_exists s) = stop_reroll_event s"
    by (elim disjE) simp_all
next
  assume ok: "start_preconditions win_exists s"
  then have pre: "game_area s \<noteq> None" "chisel_button_pos s \<noteq> None" "buy_button_pos s \<noteq> None"
    "game_window_title s \<noteq> []" "win_exists (game_window_title s)"
    by (simp_all add: start_preconditions_def)
  show "\<not> stop_reroll_event (start_running_async win_exists s)"
    using pre by (simp add: start_running_async_def Let_def update_status_def del: not_None_eq)
  show "running (start_running_async win_exists s)"
    using pre by (simp add: start_running_async_def Let_def update_status_def del: not_None_eq)
  show "\<exists>t. image_processor_thread (start_running_async win_exists s) = Some t \<and> ip_alive t"
    using pre
    by (cases "image_processor_thread s")
      (simp_all add: start_running_async_def Let_def update_status_def del: not_None_eq)
  show "reroll_loop_thread (start_running_async win_exists s) = Some True"
    using pre
    by (cases "reroll_loop_thread s")
      (simp_all add: start_running_async_def Let_def update_status_def del: not_None_eq)
  show "thread_starts (performed (start_running_async win_exists s))
          = thread_starts (performed s)
            @ (if (case image_processor_thread s of None \<Rightarrow> True | Some t \<Rightarrow> \<not> ip_alive t)
               then [StartImageProcessor] else [])
            @ (if (case reroll_loop_thread s of None \<Rightarrow> True | Some alive \<Rightarrow> \<not> alive)
               then [StartRerollLoop] else [])"
    using pre
    by (simp add: start_running_async_def Let_def update_status_def thread_starts_def
        del: not_None_eq)
qed

text \<open>
  Scenario D: in the initial state the region is unset, so the call only sets the message;
  the run does not start and the event stays unset. With region and points configured and
  the window present, both threads are started.
\<close>

theorem start_running_async_gate_witness:
  "\<not> start_preconditions (\<lambda>t. t = ''Roblox'') example_app
   \<and> start_running_async (\<lambda>t. t = ''Roblox'') example_app
       = example_app\<lparr>message_var := ''Please select area first.''\<rparr>
   \<and> \<not> running (start_running_async (\<lambda>t. t = ''Roblox'') example_app)
   \<and> \<not> stop_reroll_event (start_running_async (\<lambda>t. t = ''Roblox'') example_app)
   \<and> thread_starts (performed (start_running_async (\<lambda>t. t = ''Roblox'') example_app)) = []
   \<and> start_preconditions (\<lambda>t. t = ''Roblox'') configured_app
   \<and> running (start_running_async (\<lambda>t. t = ''Roblox'') configured_app)
   \<and> thread_starts (performed (start_running_async (\<lambda>t. t = ''Roblox'') configured_app))
       = [StartImageProcessor, StartRerollLoop]"
proof -
  have no: "\<not> start_preconditions (\<lambda>t. t = ''Roblox'') example_app"
    by (simp add: start_preconditions_def example_app_def init_app_def)
  have yes: "start_preconditions (\<lambda>t. t = ''Roblox'') configured_app"
    by (simp add: start_preconditions_def configured_app_def example_app_def init_app_def)
  have msg: "start_running_async (\<lambda>t. t = ''Roblox'') example_app
       = example_app\<lparr>message_var := ''Please select area first.''\<rparr>"
    by (simp add: start_running_async_def example_app_def init_app_def)
  have init: "\<not> running example_app" "\<not> stop_reroll_event example_app" "performed example_app = []"
    "performed configured_app = []" "image_processor_thread configured_app = None"
    "reroll_loop_thread configured_app = None"
    by (simp_all add: configured_app_def example_app_def init_app_def)
  from start_running_async_gate [of "\<lambda>t. t = ''Roblox''" example_app] no
  have a: "\<not> running (start_running_async (\<lambda>t. t = ''Roblox'') example_app)"
    "\<not> stop_reroll_event (start_running_async (\<lambda>t. t = ''Roblox'') example_app)"
    "thread_starts (performed (start_running_async (\<lambda>t. t = ''Roblox'') example_app)) = []"
    by (simp_all add: init thread_starts_def)
  from start_running_async_gate [of "\<lambda>t. t = ''Roblox''" configured_app] yes
  have b: "running (start_running_async (\<lambda>t. t = ''Roblox'') configured_app)"
    "thread_starts (performed (start_running_async (\<lambda>t. t = ''Roblox'') configured_app))
       = [StartImageProcessor, StartRerollLoop]"
    by (simp_all add: init thread_starts_def)
  from no yes msg a b show ?thesis by simp
qed


subsection \<open>Publishing the rank counts\<close>

lemma reset_counts_apply:
  "reset_counts ranks counts r = (if r \<in> set ranks then Some 0 else counts r)"
  by (induction ranks arbitrary: counts) auto

lemma count_objs_total:
  "\<forall>ob \<in> set objs. obj_rank ob \<in> dom counts \<Longrightarrow>
   \<exists>counts'. count_objs objs counts = Inr counts'
     \<and> (\<forall>r. counts' r = map_option (\<lambda>c. c + objects_of_rank r objs) (counts r))"
proof (induction objs arbitrary: counts)
  case Nil
  then show ?case by (simp add: objects_of_rank_def option.map_ident)
next
  case (Cons ob objs)
  from Cons.prems obtain c where c: "counts (obj_rank ob) = Some c" by auto
  let ?next = "counts(obj_rank ob \<mapsto> c + 1)"
  from Cons.prems have "\<forall>ob' \<in> set objs. obj_rank ob' \<in> dom ?next" by auto
  from Cons.IH [OF this] obtain counts' where
    run: "count_objs objs ?next = Inr counts'"
    and val: "\<And>r. counts' r = map_option (\<lambda>c. c + objects_of_rank r objs) (?next r)"
    by blast
  have "counts' r = map_option (\<lambda>c. c + objects_of_rank r (ob # objs)) (counts r)" for r
    using val [of r] c by (cases "r = obj_rank ob") (auto simp: objects_of_rank_def)
  with run c show ?case by simp
qed

lemma refresh_vars_total:
  "fst ` set vars \<subseteq> dom counts \<Longrightarrow>
   refresh_vars counts vars = Inr (map (\<lambda>(rank, v). (rank, py_str (the (counts rank)))) vars)"
  by (induction vars) auto

lemma sum_objects_of_rank:
  assumes "finite K" and "\<forall>ob \<in> set objs. obj_rank ob \<in> K"
  shows "(\<Sum>r \<in> K. objects_of_rank r objs) = int (length objs)"
  using assms(2)
proof (induction objs)
  case Nil
  then show ?case by (simp add: objects_of_rank_def)
next
  case (Cons ob objs)
  have step: "objects_of_rank r (ob # objs)
      = (if r = obj_rank ob then 1 else 0) + objects_of_rank r objs" for r
    by (auto simp: objects_of_rank_def)
  have "(\<Sum>r \<in> K. objects_of_rank r (ob # objs))
      = (\<Sum>r \<in> K. if r = obj_rank ob then 1 else 0) + (\<Sum>r \<in> K. objects_of_rank r objs)"
    by (simp add: step sum.distrib)
  also have "(\<Sum>r \<in> K. if r = obj_rank ob then 1 else 0) = (1::int)"
    using assms(1) Cons.prems by (simp add: sum.delta)
  also have "(\<Sum>r \<in> K. objects_of_rank r objs) = int (length objs)"
    using Cons by simp
  finally show ?case by simp
qed

text \<open>
  Claim C10. When every object's rank is a rank of the table (a key of the display
  variables), \<open>update_rank_counts_gui\<close> returns normally; afterwards every rank of the
  table is mapped in \<open>rank_counts\<close> to the number of objects of that rank, the counts over
  the table add up to the length of the list, \<open>last_detected_objs\<close> is the list passed in,
  and every display variable shows its rank's count.
\<close>

theorem update_rank_counts_gui_consistent:
  assumes "\<forall>ob \<in> set objs. obj_rank ob \<in> fst ` set (rank_count_vars s)"
  shows "\<exists>s'. update_rank_counts_gui objs s = Inr s'
     \<and> last_detected_objs s' = objs
     \<and> (\<forall>r \<in> fst ` set (rank_count_vars s). rank_counts s' r = Some (objects_of_rank r objs))
     \<and> (\<Sum>r \<in> fst ` set (rank_count_vars s). the (rank_counts s' r)) = int (length objs)
     \<and> rank_count_vars s'
         = map (\<lambda>(r, v). (r, py_str (objects_of_rank r objs))) (rank_count_vars s)"
proof -
  let ?K = "fst ` set (rank_count_vars s)"
  let ?zeroed = "reset_counts (map fst (rank_count_vars s)) (rank_counts s)"
  have zero: "?zeroed r = (if r \<in> ?K then Some 0 else rank_counts s r)" for r
    by (simp add: reset_counts_apply)
  have "\<forall>ob \<in> set objs. obj_rank ob \<in> dom ?zeroed"
    using assms zero by (auto simp: dom_def)
  from count_objs_total [OF this] obtain counts where
    run: "count_objs objs ?zeroed = Inr counts"
    and val: "\<And>r. counts r = map_option (\<lambda>c. c + objects_of_rank r objs) (?zeroed r)"
    by blast
  have inK: "counts r = Some (objects_of_rank r objs)" if "r \<in> ?K" for r
    using val [of r] zero [of r] that by simp
  then have sub: "fst ` set (rank_count_vars s) \<subseteq> dom counts" by auto
  have vars: "refresh_vars counts (rank_count_vars s)
      = Inr (map (\<lambda>(r, v). (r, py_str (objects_of_rank r objs))) (rank_count_vars s))"
  proof -
    have "map (\<lambda>(rank, v). (rank, py_str (the (counts rank)))) (rank_count_vars s)
        = map (\<lambda>(r, v). (r, py_str (objects_of_rank r objs))) (rank_count_vars s)"
    proof (rule map_cong)
      fix x assume x: "x \<in> set (rank_count_vars s)"
      then have "fst x \<in> ?K" by (rule imageI)
      from inK [OF this] show "(case x of (rank, v) \<Rightarrow> (rank, py_str (the (counts rank))))
          = (case x of (r, v) \<Rightarrow> (r, py_str (objects_of_rank r objs)))"
        by (cases x) simp
    qed simp
    with refresh_vars_total [OF sub] show ?thesis by simp
  qed
  let ?s' = "s\<lparr>last_detected_objs := objs, rank_counts := counts,
      rank_count_vars := map (\<lambda>(r, v). (r, py_str (objects_of_rank r objs))) (rank_count_vars s)\<rparr>"
  have res: "update_rank_counts_gui objs s = Inr ?s'"
    by (simp add: update_rank_counts_gui_def Let_def run vars)
  have total: "(\<Sum>r \<in> ?K. the (counts r)) = int (length objs)"
  proof -
    have "(\<Sum>r \<in> ?K. the (counts r)) = (\<Sum>r \<in> ?K. objects_of_rank r objs)"
      by (rule sum.cong) (simp_all add: inK)
    also have "\<dots> = int (length objs)"
      by (rule sum_objects_of_rank) (use assms in simp_all)
    finally show ?thesis .
  qed
  show ?thesis
  proof (intro exI conjI)
    show "update_rank_counts_gui objs s = Inr ?s'" by (rule res)
    show "last_detected_objs ?s' = objs" by simp
    show "\<forall>r \<in> ?K. rank_counts ?s' r = Some (objects_of_rank r objs)"
      by (simp add: inK)
    show "(\<Sum>r \<in> ?K. the (rank_counts ?s' r)) = int (length objs)"
      using total by simp
    show "rank_count_vars ?s'
         = map (\<lambda>(r, v). (r, py_str (objects_of_rank r objs))) (rank_count_vars s)"
      by simp
  qed
qed

text \<open>One SS object and two F objects, published from the initial state.\<close>

theorem update_rank_counts_gui_consistent_witness:
  "\<exists>s'. update_rank_counts_gui example_objs example_app = Inr s'
     \<and> last_detected_objs s' = example_objs
     \<and> rank_counts s' ''F'' = Some 2 \<and> rank_counts s' ''SS'' = Some 1
     \<and> rank_count_vars s' = [(''F'', ''2''), (''SS'', ''1'')]"
proof -
  have vars: "rank_count_vars example_app = [(''F'', ''0''), (''SS'', ''0'')]"
    by (simp add: example_app_def init_app_def)
  have ranks: "\<forall>ob \<in> set example_objs. obj_rank ob \<in> fst ` set (rank_count_vars example_app)"
    by (simp add: vars example_objs_def)
  have n: "objects_of_rank ''F'' example_objs = 2" "objects_of_rank ''SS'' example_objs = 1"
    by (simp_all add: objects_of_rank_def example_objs_def)
  have str: "py_str 2 = ''2''" "py_str 1 = ''1''"
    by (simp_all add: py_str_def str_nat.simps digit_char_def)
  from update_rank_counts_gui_consistent [OF ranks] obtain s' where
    "update_rank_counts_gui example_objs example_app = Inr s'"
    "last_detected_objs s' = example_objs"
    "\<forall>r \<in> fst ` set (rank_count_vars example_app).
        rank_counts s' r = Some (objects_of_rank r example_objs)"
    "rank_count_vars s'
       = map (\<lambda>(r, v). (r, py_str (objects_of_rank r example_objs))) (rank_count_vars example_app)"
    by blast
  then show ?thesis
    by (intro exI [of _ s']) (simp add: vars n str)
qed


subsection \<open>The end of the reroll loop\<close>

text \<open>
  Claim C4 does not hold of the code. A run makes one full pass while nothing is detected
  (its snapshot gives \<open>filtered_count = 0\<close>); then one object of rank F appears, the event
  is set, and the loop leaves at its first wait. The final snapshot satisfies the stop
  condition (one eligible object, minimum object count 1), but the flag reported is false,
  because it is computed from the \<open>filtered_count\<close> of the earlier pass.
\<close>

theorem reroll_loop_reports_stale_count:
  "reroll_loop True example_RANK_ORDER configured_app
      [Completed [(''F'', 0), (''SS'', 0)], SetAtFirstWait] [(''F'', 1), (''SS'', 0)]
     = Some (Inr \<lparr>issued = click_at 300 400 @ click_at 350 450,
                  stopped_from_condition = Some False\<rparr>)
   \<and> stop_condition example_RANK_ORDER configured_app [(''F'', 1), (''SS'', 0)]"
  by (simp add: reroll_loop_def cycle_prefix_def click_at_pos_def dict_get_def
      stop_condition_def eligible_def example_RANK_ORDER_def configured_app_def example_app_def
      init_app_def)


end
